theory Spec2Isabelle
  imports Main "HOL-Library.Char_ord" "HOL-Library.List_Lexorder" "HOL-Library.Multiset"
begin

section \<open>Library functions the program calls\<close>

text \<open>
  The program is Go. Its strings are byte sequences (\<open>string\<close> here, a \<open>char list\<close>),
  compared bytewise and lexicographically, which is the order \<open>HOL-Library.Char_ord\<close> and
  \<open>HOL-Library.List_Lexorder\<close> put on \<open>char list\<close>. The functions of this section are
  the ones of Go's standard library that the program calls (\<open>strings\<close>, \<open>path/filepath\<close> on
  Unix, \<open>time\<close>, \<open>sort\<close>), written after their documented behaviour.
\<close>

subsection \<open>Outcomes\<close>

text \<open>A Go function either returns or panics (an index or a slice bound out of range).\<close>

datatype 'a outcome = Panic | Done 'a

datatype error =
    ErrNotExist string
  | ErrIsDir string
  | ErrNotDir string
  | ErrNotEmpty string
  | ErrNoHome
  | ErrExec string
  | ErrNetwork string
  | ErrDecode string
  | ErrClipboard string
  | Errorf string
  | Wrapped string error

subsection \<open>strings\<close>

definition HasSuffix :: "string \<Rightarrow> string \<Rightarrow> bool" where
  "HasSuffix s suffix =
     (length suffix \<le> length s \<and> drop (length s - length suffix) s = suffix)"

definition TrimSuffix :: "string \<Rightarrow> string \<Rightarrow> string" where
  "TrimSuffix s suffix =
     (if HasSuffix s suffix then take (length s - length suffix) s else s)"

fun Contains :: "string \<Rightarrow> string \<Rightarrow> bool" where
  "Contains [] substr = (substr = [])"
| "Contains (c # cs) substr =
     (take (length substr) (c # cs) = substr \<or> Contains cs substr)"

text \<open>\<open>strings.Split(s, "\n")\<close>: the pieces between line feeds, empty ones included.\<close>

fun split_on :: "char \<Rightarrow> string \<Rightarrow> string list" where
  "split_on sep [] = [[]]"
| "split_on sep (c # cs) =
     (if c = sep then [] # split_on sep cs
      else (case split_on sep cs of [] \<Rightarrow> [[c]] | e # es \<Rightarrow> (c # e) # es))"

definition is_space :: "char \<Rightarrow> bool" where
  "is_space c = (c \<in> set [CHR '' '', CHR 0x09, CHR 0x0A, CHR 0x0B, CHR 0x0C, CHR 0x0D])"

text \<open>
  \<open>strings.Fields\<close>: the maximal runs of non-space characters, for the white space of
  ASCII.
\<close>

fun fields_from :: "string \<Rightarrow> string \<Rightarrow> string list" where
  "fields_from cur [] = (if cur = [] then [] else [rev cur])"
| "fields_from cur (c # cs) =
     (if is_space c then (if cur = [] then fields_from [] cs else rev cur # fields_from [] cs)
      else fields_from (c # cur) cs)"

definition Fields :: "string \<Rightarrow> string list" where
  "Fields s = fields_from [] s"

subsection \<open>path/filepath (Unix)\<close>

definition is_sep :: "char \<Rightarrow> bool" where
  "is_sep c = (c = CHR ''/'')"

fun join_sep :: "string list \<Rightarrow> string" where
  "join_sep [] = []"
| "join_sep [e] = e"
| "join_sep (e # es) = e @ ''/'' @ join_sep es"

text \<open>
  \<open>filepath.Clean\<close> works on the elements between separators, left to right, keeping the
  elements of the result so far as a stack: empty elements and \<open>.\<close> vanish, \<open>..\<close> removes
  the element before it, is dropped at the root, and is kept at the front of a relative
  path.
\<close>

definition clean_step :: "bool \<Rightarrow> string list \<Rightarrow> string \<Rightarrow> string list" where
  "clean_step rooted st e =
     (if e = [] \<or> e = ''.'' then st
      else if e = ''..'' then
        (case st of
           [] \<Rightarrow> if rooted then [] else [''..'']
         | s # st' \<Rightarrow> if s = ''..'' then ''..'' # st else st')
      else e # st)"

definition Clean :: "string \<Rightarrow> string" where
  "Clean p =
     (if p = [] then ''.''
      else let rooted = is_sep (hd p);
               es = rev (foldl (clean_step rooted) [] (split_on CHR ''/'' p))
           in if rooted then ''/'' @ join_sep es
              else if es = [] then ''.'' else join_sep es)"

text \<open>
  \<open>filepath.Join\<close>: leading empty elements are ignored, the rest is joined with
  separators and cleaned; no non-empty element gives the empty string.
\<close>

definition Join :: "string list \<Rightarrow> string" where
  "Join elem =
     (case dropWhile (\<lambda>e. e = []) elem of
        [] \<Rightarrow> []
      | es \<Rightarrow> Clean (join_sep es))"

text \<open>
  \<open>filepath.Base\<close>: the last element of the path, trailing separators removed first;
  \<open>.\<close> for the empty path and \<open>/\<close> for a path of separators only.
\<close>

definition Base :: "string \<Rightarrow> string" where
  "Base path =
     (if path = [] then ''.''
      else let p = rev (dropWhile is_sep (rev path));
               e = rev (takeWhile (\<lambda>c. \<not> is_sep c) (rev p))
           in if e = [] then ''/'' else e)"

text \<open>
  \<open>filepath.Ext\<close> scans from the end of the path towards the last separator and returns
  the suffix that starts at the first dot it meets, or the empty string.
\<close>

fun ext_scan :: "string \<Rightarrow> string \<Rightarrow> string" where
  "ext_scan [] acc = []"
| "ext_scan (c # cs) acc =
     (if is_sep c then []
      else if c = CHR ''.'' then c # acc
      else ext_scan cs (c # acc))"

definition Ext :: "string \<Rightarrow> string" where
  "Ext path = ext_scan (rev path) []"

subsection \<open>sort\<close>

text \<open>
  \<open>sort.Slice(xs, less)\<close> leaves \<open>xs\<close> a permutation of itself in which no element is
  \<open>less\<close> than an element before it. On a linear order that result is unique; it is
  computed here by insertion.
\<close>

fun insert_by :: "('a \<Rightarrow> 'a \<Rightarrow> bool) \<Rightarrow> 'a \<Rightarrow> 'a list \<Rightarrow> 'a list" where
  "insert_by lt x [] = [x]"
| "insert_by lt x (y # ys) =
     (if lt y x then y # insert_by lt x ys else x # y # ys)"

definition sort_Slice :: "('a \<Rightarrow> 'a \<Rightarrow> bool) \<Rightarrow> 'a list \<Rightarrow> 'a list" where
  "sort_Slice lt xs = foldr (insert_by lt) xs []"

subsection \<open>time\<close>

text \<open>
  A \<open>time.Time\<close> as \<open>time.Now()\<close> returns it: the reading of the wall clock in the local
  time zone (date and clock fields), and the offset of that zone from UTC in seconds
  east. The instant it denotes follows from both.
\<close>

record Time =
  t_year :: int
  t_month :: nat
  t_day :: nat
  t_hour :: nat
  t_minute :: nat
  t_second :: nat
  t_nsec :: nat
  t_offset :: int

definition valid_time :: "Time \<Rightarrow> bool" where
  "valid_time t =
     (1 \<le> t_month t \<and> t_month t \<le> 12 \<and> 1 \<le> t_day t \<and> t_day t \<le> 31 \<and>
      t_hour t < 24 \<and> t_minute t < 60 \<and> t_second t < 60 \<and> t_nsec t < 1000000000)"

text \<open>Days from 1970-01-01 to a date of the proleptic Gregorian calendar.\<close>

definition days_from_civil :: "int \<Rightarrow> int \<Rightarrow> int \<Rightarrow> int" where
  "days_from_civil y m d =
     (let y' = (if m \<le> 2 then y - 1 else y);
          era = y' div 400;
          yoe = y' - era * 400;
          doy = (153 * (if m > 2 then m - 3 else m + 9) + 2) div 5 + d - 1;
          doe = yoe * 365 + yoe div 4 - yoe div 100 + doy
      in era * 146097 + doe - 719468)"

definition unix_seconds :: "Time \<Rightarrow> int" where
  "unix_seconds t =
     days_from_civil (t_year t) (int (t_month t)) (int (t_day t)) * 86400
       + int (t_hour t) * 3600 + int (t_minute t) * 60 + int (t_second t) - t_offset t"

definition unix_nanos :: "Time \<Rightarrow> int" where
  "unix_nanos t = unix_seconds t * 1000000000 + int (t_nsec t)"

fun itoa :: "nat \<Rightarrow> string" where
  "itoa n =
     (if n < 10 then [''0123456789'' ! n]
      else itoa (n div 10) @ [''0123456789'' ! (n mod 10)])"

declare itoa.simps [simp del]

text \<open>\<open>appendInt\<close> of package \<open>time\<close>: a sign, then the decimal digits padded with zeros.\<close>

definition appendInt :: "int \<Rightarrow> nat \<Rightarrow> string" where
  "appendInt x width =
     (if x < 0 then ''-'' else []) @
     (let ds = itoa (nat \<bar>x\<bar>) in replicate (width - length ds) CHR ''0'' @ ds)"

text \<open>\<open>t.Format("2006-01-02-15-04-05")\<close>.\<close>

definition Format :: "Time \<Rightarrow> string" where
  "Format t =
     appendInt (t_year t) 4 @ ''-'' @ appendInt (int (t_month t)) 2 @ ''-'' @
     appendInt (int (t_day t)) 2 @ ''-'' @ appendInt (int (t_hour t)) 2 @ ''-'' @
     appendInt (int (t_minute t)) 2 @ ''-'' @ appendInt (int (t_second t)) 2"

section \<open>The world outside the program\<close>

subsection \<open>Files\<close>

text \<open>
  The file system is a finite table from paths to nodes. The root and the current
  directory always exist. The operations are the ones of package \<open>os\<close> the program calls.
\<close>

datatype node = File string | Directory

type_synonym filesystem = "(string \<times> node) list"

definition fs_delete :: "filesystem \<Rightarrow> string \<Rightarrow> filesystem" where
  "fs_delete fs p = filter (\<lambda>kv. fst kv \<noteq> p) fs"

definition child_name :: "string \<Rightarrow> string \<Rightarrow> string option" where
  "child_name d k =
     (if take (length d + 1) k = d @ ''/'' then
        (let n = drop (length d + 1) k
         in if n \<noteq> [] \<and> CHR ''/'' \<notin> set n then Some n else None)
      else None)"

definition has_children :: "filesystem \<Rightarrow> string \<Rightarrow> bool" where
  "has_children fs d = (\<exists>kv \<in> set fs. child_name d (fst kv) \<noteq> None)"

definition parent_dir :: "string \<Rightarrow> string" where
  "parent_dir p =
     (let d = rev (dropWhile is_sep (dropWhile (\<lambda>c. \<not> is_sep c) (rev p)))
      in if d = [] then (if p \<noteq> [] \<and> is_sep (hd p) then ''/'' else ''.'') else d)"

definition is_directory :: "filesystem \<Rightarrow> string \<Rightarrow> bool" where
  "is_directory fs d = (d = ''/'' \<or> d = ''.'' \<or> map_of fs d = Some Directory)"

definition os_Stat :: "filesystem \<Rightarrow> string \<Rightarrow> error + node" where
  "os_Stat fs p = (case map_of fs p of None \<Rightarrow> Inl (ErrNotExist p) | Some n \<Rightarrow> Inr n)"

definition os_ReadFile :: "filesystem \<Rightarrow> string \<Rightarrow> error + string" where
  "os_ReadFile fs p =
     (case map_of fs p of
        None \<Rightarrow> Inl (ErrNotExist p)
      | Some Directory \<Rightarrow> Inl (ErrIsDir p)
      | Some (File content) \<Rightarrow> Inr content)"

definition os_WriteFile :: "filesystem \<Rightarrow> string \<Rightarrow> string \<Rightarrow> error + filesystem" where
  "os_WriteFile fs p content =
     (if map_of fs p = Some Directory then Inl (ErrIsDir p)
      else if \<not> is_directory fs (parent_dir p) then Inl (ErrNotExist p)
      else Inr ((p, File content) # fs_delete fs p))"

text \<open>\<open>os.Remove\<close> removes a file or an empty directory.\<close>

definition os_Remove :: "filesystem \<Rightarrow> string \<Rightarrow> error + filesystem" where
  "os_Remove fs p =
     (case map_of fs p of
        None \<Rightarrow> Inl (ErrNotExist p)
      | Some Directory \<Rightarrow>
          if has_children fs p then Inl (ErrNotEmpty p) else Inr (fs_delete fs p)
      | Some (File content) \<Rightarrow> Inr (fs_delete fs p))"

record DirEntry =
  Name :: string
  IsDir :: bool

text \<open>\<open>os.ReadDir\<close> returns the entries of a directory sorted by file name.\<close>

definition dir_entries :: "filesystem \<Rightarrow> string \<Rightarrow> DirEntry list" where
  "dir_entries fs d =
     concat (map (\<lambda>kv. case child_name d (fst kv) of
                          None \<Rightarrow> []
                        | Some n \<Rightarrow> [\<lparr>Name = n, IsDir = (snd kv = Directory)\<rparr>]) fs)"

definition os_ReadDir :: "filesystem \<Rightarrow> string \<Rightarrow> error + DirEntry list" where
  "os_ReadDir fs d =
     (case map_of fs d of
        None \<Rightarrow> Inl (ErrNotExist d)
      | Some (File content) \<Rightarrow> Inl (ErrNotDir d)
      | Some Directory \<Rightarrow> Inr (sort_key Name (dir_entries fs d)))"

text \<open>
  \<open>os.MkdirAll\<close> creates the directory and the missing ones above it, from the top, and
  stops at an element that exists as a file; what it had created by then stays.
\<close>

fun mkdir_chain :: "filesystem \<Rightarrow> string \<Rightarrow> string list \<Rightarrow> filesystem \<times> error option" where
  "mkdir_chain fs cur [] = (fs, None)"
| "mkdir_chain fs cur (e # es) =
     (let p = (if cur = [] then e else if cur = ''/'' then cur @ e else cur @ ''/'' @ e)
      in case map_of fs p of
           Some (File content) \<Rightarrow> (fs, Some (ErrNotDir p))
         | Some Directory \<Rightarrow> mkdir_chain fs p es
         | None \<Rightarrow> mkdir_chain ((p, Directory) # fs) p es)"

definition os_MkdirAll :: "filesystem \<Rightarrow> string \<Rightarrow> filesystem \<times> error option" where
  "os_MkdirAll fs path =
     mkdir_chain fs (if path \<noteq> [] \<and> is_sep (hd path) then ''/'' else [])
       (filter (\<lambda>e. e \<noteq> []) (split_on CHR ''/'' path))"

text \<open>
  The world a function of the program runs in: the home directory as
  \<open>os.UserHomeDir\<close> reports it, and the files.
\<close>

record world =
  home :: "error + string"
  files :: filesystem

section \<open>Package config\<close>

definition AppName :: string where
  "AppName = ''open_whisper''"

definition RecordingsDir :: string where
  "RecordingsDir = ''recordings''"

definition TranscriptionsDir :: string where
  "TranscriptionsDir = ''transcriptions''"

text \<open>The loop of \<open>GetAppDataDir\<close> over the three directories, stopping at the first error.\<close>

fun mkdir_each :: "filesystem \<Rightarrow> string list \<Rightarrow> filesystem \<times> error option" where
  "mkdir_each fs [] = (fs, None)"
| "mkdir_each fs (dir # dirs) =
     (case os_MkdirAll fs dir of
        (fs', Some e) \<Rightarrow> (fs', Some (Wrapped (''failed to create directory '' @ dir) e))
      | (fs', None) \<Rightarrow> mkdir_each fs' dirs)"

definition GetAppDataDir :: "world \<Rightarrow> world \<times> (error + string)" where
  "GetAppDataDir w =
     (case home w of
        Inl e \<Rightarrow> (w, Inl (Wrapped ''failed to get home directory'' e))
      | Inr homeDir \<Rightarrow>
          let appDataDir = Join [homeDir, ''.'' @ AppName]
          in case mkdir_each (files w)
                    [appDataDir, Join [appDataDir, RecordingsDir],
                     Join [appDataDir, TranscriptionsDir]] of
               (fs', Some e) \<Rightarrow> (w\<lparr>files := fs'\<rparr>, Inl e)
             | (fs', None) \<Rightarrow> (w\<lparr>files := fs'\<rparr>, Inr appDataDir))"

section \<open>Package audio: the recorder\<close>

text \<open>
  An \<open>exec.Cmd\<close>: the command line, and the process once it has been started. A timer is
  known by its duration in seconds. The \<open>Recorder\<close> is the struct of the source, a nil
  pointer being \<open>None\<close>.
\<close>

record Cmd =
  Args :: "string list"
  Process :: "nat option"

datatype Timer = NewTimer nat

record Recorder =
  cmd :: "Cmd option"
  outputFile :: string
  isRecording :: bool
  appDataDir :: string
  timer :: "Timer option"

text \<open>What a call does to the processes and the clock, in the order it does it.\<close>

datatype effect =
    StartProcess "string list"
  | ArmTimer nat
  | StopTimer
  | SignalInterrupt nat
  | KillProcess nat
  | WaitProcess nat
  | RunCommand "string list"
  | Warning string
  | StatFile string
  | Sleep_ms nat

definition NewRecorder :: "string \<Rightarrow> Recorder" where
  "NewRecorder dir =
     \<lparr>cmd = None, outputFile = [], isRecording = False, appDataDir = dir, timer = None\<rparr>"

text \<open>
  What \<open>StartRecording\<close> reads from outside: the clock, and whether the subprocess starts
  (its process id when it does).
\<close>

record start_env =
  now :: Time
  cmd_Start :: "error + nat"

definition ffmpeg_args :: "string \<Rightarrow> string list" where
  "ffmpeg_args out = [''ffmpeg'', ''-f'', ''avfoundation'', ''-i'', '':1'', ''-y'', out]"

definition StartRecording :: "start_env \<Rightarrow> Recorder \<Rightarrow> Recorder \<times> error option \<times> effect list" where
  "StartRecording env r =
     (if isRecording r then (r, Some (Errorf ''recording is already in progress''), [])
      else
        let timestamp = Format (now env);
            r1 = r\<lparr>outputFile := Join [appDataDir r, RecordingsDir, timestamp @ ''.wav'']\<rparr>;
            r2 = r1\<lparr>cmd := Some \<lparr>Args = ffmpeg_args (outputFile r1), Process = None\<rparr>\<rparr>
        in case cmd_Start env of
             Inl e \<Rightarrow>
               (r2, Some (Wrapped ''failed to start recording'' e),
                [StartProcess (ffmpeg_args (outputFile r1))])
           | Inr pid \<Rightarrow>
               (r2\<lparr>cmd := Some \<lparr>Args = ffmpeg_args (outputFile r1), Process = Some pid\<rparr>,
                   timer := Some (NewTimer (20 * 60)),
                   isRecording := True\<rparr>,
                None,
                [StartProcess (ffmpeg_args (outputFile r1)), ArmTimer (20 * 60)]))"

text \<open>
  What \<open>StopRecording\<close> reads from outside: whether the interrupt signal could be sent,
  whether the process exited within the two seconds, the output of \<open>ps\<close>, the id of this
  process, whether \<open>kill -INT\<close> on a process succeeded, and whether the output file
  existed at each poll.
\<close>

record stop_env =
  signal_result :: "error option"
  exited_in_time :: bool
  ps_output :: "error + string"
  getpid :: nat
  kill_INT :: "string \<Rightarrow> error option"
  output_exists :: "nat \<Rightarrow> bool"

definition kill_line :: "stop_env \<Rightarrow> string \<Rightarrow> effect list" where
  "kill_line env line =
     (if Contains line ''ffmpeg'' \<and> Contains line ''.open_whisper'' then
        (let fields = Fields line
         in if length fields < 2 then []
            else let pid = hd fields
                 in if pid = itoa (getpid env) then []
                    else RunCommand [''kill'', ''-INT'', pid] #
                         (case kill_INT env pid of
                            Some e \<Rightarrow>
                              [Warning ''Failed to interrupt ffmpeg process'',
                               RunCommand [''kill'', ''-9'', pid]]
                          | None \<Rightarrow> []))
      else [])"

definition killOrphanedFFmpegProcesses :: "stop_env \<Rightarrow> effect list" where
  "killOrphanedFFmpegProcesses env =
     RunCommand [''ps'', ''-eo'', ''pid,command''] #
     (case ps_output env of
        Inl e \<Rightarrow> [Warning ''Failed to list processes'']
      | Inr output \<Rightarrow> concat (map (kill_line env) (split_on CHR 0x0A output)))"




definition Cleanup :: "stop_env \<Rightarrow> effect list" where
  "Cleanup env = killOrphanedFFmpegProcesses env"

definition GetOutputFile :: "Recorder \<Rightarrow> string" where
  "GetOutputFile r = outputFile r"





section \<open>Package audio: the transcriber\<close>

record Transcriber =
  apiKey :: string
  transcriber_appDataDir :: string

text \<open>
  The request \<open>Transcribe\<close> builds (a multipart form with the fields \<open>file\<close> and \<open>model\<close>),
  the response, and what \<open>Transcribe\<close> meets outside: the answer of \<open>http.Client.Do\<close>, and
  the \<open>Text\<close> field that the JSON decoder of \<open>encoding/json\<close> reads from a body.
\<close>

record http_request =
  url :: string
  authorization :: string
  file_name :: string
  file_data :: string
  model_field :: string

record http_response =
  StatusCode :: int
  Body :: string

record net =
  client_Do :: "http_request \<Rightarrow> error + http_response"
  json_Decode :: "string \<Rightarrow> error + string"

definition transcription_request :: "Transcriber \<Rightarrow> string \<Rightarrow> string \<Rightarrow> http_request" where
  "transcription_request t audioFile content =
     \<lparr>url = ''https://api.openai.com/v1/audio/transcriptions'',
      authorization = ''Bearer '' @ apiKey t,
      file_name = Base audioFile,
      file_data = content,
      model_field = ''whisper-1''\<rparr>"

text \<open>
  \<open>os.Open\<close> succeeds on a directory, and copying from it then fails. Writing the form
  into the buffer in memory and building the request for the fixed address do not fail.
\<close>

definition Transcribe ::
  "net \<Rightarrow> Transcriber \<Rightarrow> filesystem \<Rightarrow> string \<Rightarrow> filesystem \<times> (error + string) outcome" where
  "Transcribe env t fs audioFile =
     (case map_of fs audioFile of
        None \<Rightarrow> (fs, Done (Inl (Wrapped ''failed to open audio file'' (ErrNotExist audioFile))))
      | Some Directory \<Rightarrow>
          (fs, Done (Inl (Wrapped ''failed to copy file data'' (ErrIsDir audioFile))))
      | Some (File content) \<Rightarrow>
          case client_Do env (transcription_request t audioFile content) of
               Inl e \<Rightarrow> (fs, Done (Inl (Wrapped ''failed to send request'' e)))
             | Inr resp \<Rightarrow>
                 if StatusCode resp \<noteq> 200 then
                   (fs, Done (Inl (Errorf (''API request failed with status '' @
                      appendInt (StatusCode resp) 0 @ '': '' @ Body resp))))
                 else
                   (case json_Decode env (Body resp) of
                      Inl e \<Rightarrow> (fs, Done (Inl (Wrapped ''failed to decode response'' e)))
                    | Inr text \<Rightarrow>
                        if length audioFile < 4 then (fs, Panic)
                        else
                          let timestamp = Base (take (length audioFile - 4) audioFile);
                              transcriptionFile =
                                Join [transcriber_appDataDir t, TranscriptionsDir,
                                      timestamp @ ''.txt'']
                          in case os_WriteFile fs transcriptionFile text of
                               Inl e \<Rightarrow>
                                 (fs, Done (Inl (Wrapped ''failed to save transcription'' e)))
                             | Inr fs' \<Rightarrow> (fs', Done (Inr text))))"

section \<open>Package main: the terminal application\<close>

subsection \<open>Messages, commands and the model\<close>

datatype RecordingState = Idle | Recording | Transcribing | TranscriptionComplete

text \<open>
  The messages \<open>Update\<close> receives. \<open>stringsMsg\<close> is the message of Go type \<open>[]string\<close>
  that \<open>loadTranscriptions\<close> returns; \<open>otherMsg\<close> is any message \<open>Update\<close> has no case
  for.
\<close>

datatype msg =
    WindowSizeMsg int int
  | recordingStartedMsg
  | recordingStoppedMsg "error option"
  | transcriptionFinishedMsg string "error option"
  | copyToClipboardMsg "error option"
  | tickMsg
  | stringsMsg "string list"
  | errMsg error
  | KeyMsg string
  | otherMsg

text \<open>
  The commands \<open>Update\<close> returns, by the function of the source that builds each;
  \<open>Sequence\<close> and \<open>Batch\<close> are the two combinators of the terminal library.
\<close>

datatype tea_Cmd =
    nil_Cmd
  | startRecording_Cmd
  | stopRecording_Cmd
  | transcribe_Cmd
  | copyToClipboard_Cmd string
  | loadTranscriptions_Cmd
  | deleteTranscription_Cmd string
  | tick_Cmd
  | Quit_Cmd
  | WindowSize_Cmd int int
  | Sequence "tea_Cmd list"
  | Batch "tea_Cmd list"

text \<open>What the viewport shows, by the branch of the view function that rendered it.\<close>

datatype content =
    no_content
  | loading_content
  | recording_content
  | transcribing_content
  | idle_error_content error
  | idle_content bool
  | complete_content string bool
  | no_transcriptions_content
  | confirm_delete_content string string
  | selected_content int nat string bool
  | two_pane_content "string list" int string bool

text \<open>
  The model of the source. The viewport is known by its content and the help panel by
  its \<open>ShowAll\<close> flag; the recorder and the transcriber, which the model holds by
  pointer and never changes itself, live outside it.
\<close>

record model =
  viewport :: content
  help_ShowAll :: bool
  recordingState :: RecordingState
  err :: "error option"
  transcription :: string
  showCopied :: bool
  width :: int
  height :: int
  showingTranscriptions :: bool
  transcriptionFiles :: "string list"
  selectedIndex :: int
  selectedContent :: string
  showingDeleteConfirmation :: bool

definition initialModel :: model where
  "initialModel =
     \<lparr>viewport = no_content, help_ShowAll = False, recordingState = Idle, err = None,
      transcription = [], showCopied = False, width = 0, height = 0,
      showingTranscriptions = False, transcriptionFiles = [], selectedIndex = 0,
      selectedContent = [], showingDeleteConfirmation = False\<rparr>"

subsection \<open>Key bindings\<close>

definition keys_Record :: "string list" where "keys_Record = [''r'']"
definition keys_StopRecording :: "string list" where "keys_StopRecording = ['' '', ''enter'']"
definition keys_CopyToClip :: "string list" where "keys_CopyToClip = [''c'', ''y'']"
definition keys_ListTranscriptions :: "string list" where "keys_ListTranscriptions = [''l'']"
definition keys_Help :: "string list" where "keys_Help = [''?'']"
definition keys_Back :: "string list" where "keys_Back = [''esc'']"
definition keys_Up :: "string list" where "keys_Up = [''up'', ''k'']"
definition keys_Down :: "string list" where "keys_Down = [''down'', ''j'']"
definition keys_Quit :: "string list" where "keys_Quit = [''q'', ''ctrl+c'']"
definition keys_Delete :: "string list" where "keys_Delete = [''d'']"
definition keys_Confirm :: "string list" where "keys_Confirm = [''enter'']"

definition Matches :: "string \<Rightarrow> string list \<Rightarrow> bool" where
  "Matches k binding = (k \<in> set binding)"

subsection \<open>Files of the transcription store\<close>

definition loadTranscriptionContent :: "world \<Rightarrow> string \<Rightarrow> world \<times> (error + string)" where
  "loadTranscriptionContent w filename =
     (case GetAppDataDir w of
        (w1, Inl e) \<Rightarrow> (w1, Inl (Wrapped ''failed to get app data directory'' e))
      | (w1, Inr dir) \<Rightarrow>
          (case os_ReadFile (files w1) (Join [dir, TranscriptionsDir, filename]) of
             Inl e \<Rightarrow> (w1, Inl (Wrapped ''failed to read transcription'' e))
           | Inr content \<Rightarrow> (w1, Inr content)))"

definition txt_names :: "DirEntry list \<Rightarrow> string list" where
  "txt_names entries =
     map Name (filter (\<lambda>file. \<not> IsDir file \<and> Ext (Name file) = ''.txt'') entries)"

definition loadTranscriptions :: "world \<Rightarrow> world \<times> msg" where
  "loadTranscriptions w =
     (case GetAppDataDir w of
        (w1, Inl e) \<Rightarrow> (w1, errMsg (Wrapped ''failed to get app data directory'' e))
      | (w1, Inr dir) \<Rightarrow>
          (case os_ReadDir (files w1) (Join [dir, TranscriptionsDir]) of
             Inl e \<Rightarrow> (w1, errMsg (Wrapped ''failed to read transcriptions directory'' e))
           | Inr entries \<Rightarrow>
               (w1, stringsMsg (sort_Slice (\<lambda>a b. a > b) (txt_names entries)))))"

definition deleteTranscription :: "string \<Rightarrow> world \<Rightarrow> world \<times> msg" where
  "deleteTranscription filename w =
     (case GetAppDataDir w of
        (w1, Inl e) \<Rightarrow> (w1, errMsg (Wrapped ''failed to get app data directory'' e))
      | (w1, Inr dir) \<Rightarrow>
          (case os_Remove (files w1) (Join [dir, TranscriptionsDir, filename]) of
             Inl e \<Rightarrow> (w1, errMsg (Wrapped ''failed to delete transcription'' e))
           | Inr fs1 \<Rightarrow>
               let audioFilename = TrimSuffix filename ''.txt'' @ ''.wav'';
                   audioPath = Join [dir, RecordingsDir, audioFilename];
                   fs2 = (case os_Remove fs1 audioPath of Inl e \<Rightarrow> fs1 | Inr fs' \<Rightarrow> fs')
               in loadTranscriptions (w1\<lparr>files := fs2\<rparr>)))"

subsection \<open>Views\<close>

text \<open>\<open>xs[i]\<close> of Go: a panic when the index is out of range.\<close>

definition index :: "'a list \<Rightarrow> int \<Rightarrow> 'a outcome" where
  "index xs i = (if 0 \<le> i \<and> i < int (length xs) then Done (xs ! nat i) else Panic)"

definition recordingView :: "model \<Rightarrow> content" where
  "recordingView m =
     (case recordingState m of
        Recording \<Rightarrow> recording_content
      | Transcribing \<Rightarrow> transcribing_content
      | Idle \<Rightarrow>
          (case err m of
             Some e \<Rightarrow> idle_error_content e
           | None \<Rightarrow> idle_content (width m \<ge> 30 \<and> height m \<ge> 25))
      | TranscriptionComplete \<Rightarrow> complete_content (transcription m) (showCopied m))"

definition transcriptionListView :: "model \<Rightarrow> content outcome" where
  "transcriptionListView m =
     (if transcriptionFiles m = [] then Done no_transcriptions_content
      else if showingDeleteConfirmation m then
        (case index (transcriptionFiles m) (selectedIndex m) of
           Panic \<Rightarrow> Panic
         | Done filename \<Rightarrow>
             Done (confirm_delete_content filename (TrimSuffix filename ''.txt'' @ ''.wav'')))
      else if width m < 100 then
        Done (selected_content (selectedIndex m + 1) (length (transcriptionFiles m))
                (selectedContent m) (showCopied m))
      else
        Done (two_pane_content (transcriptionFiles m) (selectedIndex m)
                (selectedContent m) (showCopied m)))"

text \<open>\<open>m.viewport.SetContent\<close> of one view, and of the view that is showing.\<close>

definition set_list_view :: "model \<Rightarrow> model outcome" where
  "set_list_view m =
     (case transcriptionListView m of Panic \<Rightarrow> Panic | Done c \<Rightarrow> Done (m\<lparr>viewport := c\<rparr>))"

definition set_recording_view :: "model \<Rightarrow> model" where
  "set_recording_view m = m\<lparr>viewport := recordingView m\<rparr>"

definition set_current_view :: "model \<Rightarrow> model outcome" where
  "set_current_view m =
     (if showingTranscriptions m then set_list_view m else Done (set_recording_view m))"

definition returning :: "world \<Rightarrow> tea_Cmd \<Rightarrow> model outcome \<Rightarrow> (world \<times> model \<times> tea_Cmd) outcome" where
  "returning w c r = (case r of Panic \<Rightarrow> Panic | Done m \<Rightarrow> Done (w, m, c))"

subsection \<open>The update function\<close>

definition handleRecordingUpdate :: "model \<Rightarrow> msg \<Rightarrow> model \<times> tea_Cmd" where
  "handleRecordingUpdate m message =
     (case message of
        KeyMsg k \<Rightarrow>
          if Matches k keys_Record then
            (if recordingState m = Idle \<or> recordingState m = TranscriptionComplete
             then (m\<lparr>transcription := []\<rparr>, startRecording_Cmd)
             else (m, nil_Cmd))
          else if Matches k keys_StopRecording then
            (if recordingState m = Recording
             then (m, Sequence [stopRecording_Cmd, transcribe_Cmd])
             else (m, nil_Cmd))
          else if Matches k keys_CopyToClip then
            (if transcription m \<noteq> [] \<and> recordingState m = TranscriptionComplete
             then (m, copyToClipboard_Cmd (transcription m))
             else (m, nil_Cmd))
          else (m, nil_Cmd)
      | _ \<Rightarrow> (m, nil_Cmd))"

text \<open>
  The Up and Down branches after the index has moved: reset the copy message, read the
  selected file, and show it when the read succeeds.
\<close>

definition select_file :: "world \<Rightarrow> model \<Rightarrow> (world \<times> model \<times> tea_Cmd) outcome" where
  "select_file w m =
     (let m1 = m\<lparr>showCopied := False\<rparr>
      in case index (transcriptionFiles m1) (selectedIndex m1) of
           Panic \<Rightarrow> Panic
         | Done filename \<Rightarrow>
             (case loadTranscriptionContent w filename of
                (w', Inl e) \<Rightarrow> Done (w', m1, nil_Cmd)
              | (w', Inr c) \<Rightarrow> returning w' nil_Cmd (set_list_view (m1\<lparr>selectedContent := c\<rparr>))))"

definition handleTranscriptionListUpdate ::
  "world \<Rightarrow> model \<Rightarrow> msg \<Rightarrow> (world \<times> model \<times> tea_Cmd) outcome" where
  "handleTranscriptionListUpdate w m message =
     (case message of
        KeyMsg k \<Rightarrow>
          if showingDeleteConfirmation m then
            (if Matches k keys_Confirm then
               (if transcriptionFiles m \<noteq> [] then
                  (case index (transcriptionFiles m) (selectedIndex m) of
                     Panic \<Rightarrow> Panic
                   | Done filename \<Rightarrow>
                       Done (w, m\<lparr>showingDeleteConfirmation := False\<rparr>,
                             deleteTranscription_Cmd filename))
                else Done (w, m, nil_Cmd))
             else if Matches k keys_Back then
               returning w nil_Cmd (set_list_view (m\<lparr>showingDeleteConfirmation := False\<rparr>))
             else Done (w, m, nil_Cmd))
          else if Matches k keys_Delete then
            (if transcriptionFiles m \<noteq> [] then
               returning w nil_Cmd (set_list_view (m\<lparr>showingDeleteConfirmation := True\<rparr>))
             else Done (w, m, nil_Cmd))
          else if Matches k keys_Record then
            Done (w,
                  set_recording_view
                    (m\<lparr>showingTranscriptions := False, showCopied := False,
                       transcription := [], recordingState := Idle\<rparr>),
                  startRecording_Cmd)
          else if Matches k keys_Up then
            (if selectedIndex m > 0
             then select_file w (m\<lparr>selectedIndex := selectedIndex m - 1\<rparr>)
             else Done (w, m, nil_Cmd))
          else if Matches k keys_Down then
            (if selectedIndex m < int (length (transcriptionFiles m)) - 1
             then select_file w (m\<lparr>selectedIndex := selectedIndex m + 1\<rparr>)
             else Done (w, m, nil_Cmd))
          else if Matches k keys_CopyToClip then
            (if selectedContent m \<noteq> []
             then Done (w, m\<lparr>showCopied := False\<rparr>, copyToClipboard_Cmd (selectedContent m))
             else Done (w, m, nil_Cmd))
          else if Matches k keys_Back then
            Done (w,
                  set_recording_view
                    (m\<lparr>showingTranscriptions := False, showCopied := False,
                       recordingState := Idle\<rparr>),
                  nil_Cmd)
          else Done (w, m, nil_Cmd)
      | _ \<Rightarrow> Done (w, m, nil_Cmd))"

text \<open>The case of \<open>Update\<close> for a list of file names.\<close>

definition update_strings ::
  "world \<Rightarrow> model \<Rightarrow> string list \<Rightarrow> (world \<times> model \<times> tea_Cmd) outcome" where
  "update_strings w m fs =
     (let m1 = m\<lparr>transcriptionFiles := fs\<rparr>
      in case fs of
           [] \<Rightarrow> returning w nil_Cmd (set_list_view m1)
         | first # rest \<Rightarrow>
             (case loadTranscriptionContent w first of
                (w', Inl e) \<Rightarrow> returning w' nil_Cmd (set_list_view m1)
              | (w', Inr c) \<Rightarrow>
                  returning w' nil_Cmd (set_list_view (m1\<lparr>selectedContent := c\<rparr>))))"

text \<open>The case of \<open>Update\<close> for a key: the global keys first, then the view's handler.\<close>

definition update_key ::
  "world \<Rightarrow> model \<Rightarrow> string \<Rightarrow> (world \<times> model \<times> tea_Cmd) outcome" where
  "update_key w m k =
     (if Matches k keys_Back \<and> help_ShowAll m then
        Done (w, m\<lparr>help_ShowAll := False\<rparr>, WindowSize_Cmd (width m) (height m))
      else if Matches k keys_Help then
        Done (w, m\<lparr>help_ShowAll := \<not> help_ShowAll m\<rparr>, WindowSize_Cmd (width m) (height m))
      else if Matches k keys_Quit then Done (w, m, Quit_Cmd)
      else if Matches k keys_ListTranscriptions then
        (let m1 = m\<lparr>showingTranscriptions := \<not> showingTranscriptions m\<rparr>
         in if showingTranscriptions m1 then
              Done (w,
                    m1\<lparr>selectedIndex := 0, selectedContent := [], viewport := loading_content\<rparr>,
                    loadTranscriptions_Cmd)
            else Done (w, m1, nil_Cmd))
      else if help_ShowAll m then Done (w, m, nil_Cmd)
      else if showingTranscriptions m then handleTranscriptionListUpdate w m (KeyMsg k)
      else (case handleRecordingUpdate m (KeyMsg k) of (m', c) \<Rightarrow> Done (w, m', c)))"

definition Update :: "world \<Rightarrow> model \<Rightarrow> msg \<Rightarrow> (world \<times> model \<times> tea_Cmd) outcome" where
  "Update w m message =
     (case message of
        WindowSizeMsg w' h' \<Rightarrow>
          (case set_current_view (m\<lparr>width := w', height := h'\<rparr>) of
             Panic \<Rightarrow> Panic
           | Done m1 \<Rightarrow> returning w nil_Cmd (set_current_view m1))
      | recordingStartedMsg \<Rightarrow>
          returning w nil_Cmd (set_current_view (m\<lparr>recordingState := Recording, err := None\<rparr>))
      | recordingStoppedMsg e \<Rightarrow>
          (case e of
             Some e' \<Rightarrow>
               returning w nil_Cmd
                 (set_current_view (m\<lparr>err := Some e', recordingState := Idle\<rparr>))
           | None \<Rightarrow>
               returning w nil_Cmd (set_current_view (m\<lparr>recordingState := Transcribing\<rparr>)))
      | transcriptionFinishedMsg text e \<Rightarrow>
          (let m1 = m\<lparr>recordingState := TranscriptionComplete\<rparr>
           in case e of
                Some e' \<Rightarrow> returning w nil_Cmd (set_current_view (m1\<lparr>err := Some e'\<rparr>))
              | None \<Rightarrow>
                  if showingTranscriptions m1
                  then Done (w, m1\<lparr>transcription := text\<rparr>, loadTranscriptions_Cmd)
                  else returning w nil_Cmd (set_current_view (m1\<lparr>transcription := text\<rparr>)))
      | copyToClipboardMsg e \<Rightarrow>
          (case e of
             Some e' \<Rightarrow> returning w nil_Cmd (set_current_view (m\<lparr>err := Some e'\<rparr>))
           | None \<Rightarrow> Done (w, m\<lparr>showCopied := True\<rparr>, Batch [nil_Cmd, Sequence [tick_Cmd]]))
      | tickMsg \<Rightarrow> returning w nil_Cmd (set_current_view (m\<lparr>showCopied := False\<rparr>))
      | stringsMsg fs \<Rightarrow> update_strings w m fs
      | errMsg e \<Rightarrow> Done (w, m\<lparr>err := Some e\<rparr>, nil_Cmd)
      | KeyMsg k \<Rightarrow> update_key w m k
      | otherMsg \<Rightarrow> returning w nil_Cmd (set_current_view m))"

text \<open>
  A session at the keyboard in which every command that only touches files
  (\<open>loadTranscriptions\<close>, \<open>deleteTranscription\<close>) has delivered its message before the
  next key is pressed. Other commands are not run.
\<close>

definition deliver :: "(world \<times> model \<times> tea_Cmd) outcome \<Rightarrow> (world \<times> model) outcome" where
  "deliver r =
     (case r of
        Panic \<Rightarrow> Panic
      | Done (w, m, c) \<Rightarrow>
          (case c of
             loadTranscriptions_Cmd \<Rightarrow>
               (case loadTranscriptions w of
                  (w', message) \<Rightarrow>
                    (case Update w' m message of
                       Panic \<Rightarrow> Panic
                     | Done (w'', m', c') \<Rightarrow> Done (w'', m')))
           | deleteTranscription_Cmd filename \<Rightarrow>
               (case deleteTranscription filename w of
                  (w', message) \<Rightarrow>
                    (case Update w' m message of
                       Panic \<Rightarrow> Panic
                     | Done (w'', m', c') \<Rightarrow> Done (w'', m')))
           | _ \<Rightarrow> Done (w, m)))"

fun press :: "(world \<times> model) outcome \<Rightarrow> string list \<Rightarrow> (world \<times> model) outcome" where
  "press r [] = r"
| "press Panic (k # ks) = Panic"
| "press (Done (w, m)) (k # ks) = press (deliver (Update w m (KeyMsg k))) ks"

text \<open>The selection is within the list: \<open>0 \<le> selectedIndex \<le> len(files) - 1\<close>.\<close>

definition selection_in_bounds :: "model \<Rightarrow> bool" where
  "selection_in_bounds m =
     (0 \<le> selectedIndex m \<and> selectedIndex m \<le> int (length (transcriptionFiles m)) - 1)"

text \<open>
  While the delete confirmation is showing a non-empty list, the selection is an index
  of the list.
\<close>

definition confirmation_in_bounds :: "model \<Rightarrow> bool" where
  "confirmation_in_bounds m =
     (showingDeleteConfirmation m \<and> transcriptionFiles m \<noteq> [] \<longrightarrow>
        0 \<le> selectedIndex m \<and> selectedIndex m < int (length (transcriptionFiles m)))"


section \<open>Notions the properties are stated with\<close>

text \<open>A path element that \<open>filepath.Clean\<close> keeps as it is.\<close>

definition plain_name :: "string \<Rightarrow> bool" where
  "plain_name e = (e \<noteq> [] \<and> CHR ''/'' \<notin> set e \<and> e \<noteq> ''.'' \<and> e \<noteq> ''..'')"

text \<open>The number a string of decimal digits denotes.\<close>

definition digits_value :: "string \<Rightarrow> nat" where
  "digits_value s = foldl (\<lambda>acc c. acc * 10 + (of_char c - 48)) 0 s"

text \<open>The part of a formatted time after the year.\<close>

definition clock_suffix :: "Time \<Rightarrow> string" where
  "clock_suffix t =
     ''-'' @ appendInt (int (t_month t)) 2 @ ''-'' @
     appendInt (int (t_day t)) 2 @ ''-'' @ appendInt (int (t_hour t)) 2 @ ''-'' @
     appendInt (int (t_minute t)) 2 @ ''-'' @ appendInt (int (t_second t)) 2"

text \<open>
  The name the specification gives the transcription of an audio file: the base name of
  the audio file with its extension replaced by \<open>.txt\<close>.
\<close>

definition txt_name :: "string \<Rightarrow> string" where
  "txt_name audioFile =
     (let b = Base audioFile in take (length b - length (Ext b)) b @ ''.txt'')"

section \<open>Concrete inputs\<close>

definition example_dir :: string where
  "example_dir = ''/home/u/.open_whisper''"

definition example_files :: filesystem where
  "example_files =
     [(''/home'', Directory),
      (''/home/u'', Directory),
      (''/home/u/.open_whisper'', Directory),
      (''/home/u/.open_whisper/recordings'', Directory),
      (''/home/u/.open_whisper/transcriptions'', Directory),
      (''/home/u/.open_whisper/recordings/2024-01-01-00-00-00.wav'', File ''RIFF1''),
      (''/home/u/.open_whisper/recordings/2024-06-01-00-00-00.wav'', File ''RIFF2''),
      (''/home/u/.open_whisper/transcriptions/2024-01-01-00-00-00.txt'', File ''january''),
      (''/home/u/.open_whisper/transcriptions/2024-06-01-00-00-00.txt'', File ''june'')]"

definition example_world :: world where
  "example_world = \<lparr>home = Inr ''/home/u'', files = example_files\<rparr>"

definition example_time :: Time where
  "example_time =
     \<lparr>t_year = 2026, t_month = 11, t_day = 1, t_hour = 1, t_minute = 30, t_second = 0,
      t_nsec = 0, t_offset = - 14400\<rparr>"

definition start_ok :: start_env where
  "start_ok = \<lparr>now = example_time, cmd_Start = Inr 4242\<rparr>"



definition example_time_later :: Time where
  "example_time_later = example_time\<lparr>t_offset := - 18000\<rparr>"

definition example_time_next :: Time where
  "example_time_next = example_time\<lparr>t_second := 1\<rparr>"

definition start_next :: start_env where
  "start_next = \<lparr>now = example_time_next, cmd_Start = Inr 4243\<rparr>"

definition start_later :: start_env where
  "start_later = \<lparr>now = example_time_later, cmd_Start = Inr 4244\<rparr>"

definition example_response :: http_response where
  \<open>example_response = \<lparr>StatusCode = 200, Body = ''{"text":"hello"}''\<rparr>\<close>

definition example_net :: net where
  "example_net =
     \<lparr>client_Do = (\<lambda>req. Inr example_response),
      json_Decode = (\<lambda>body. if body = Body example_response then Inr ''hello''
                              else Inl (ErrDecode body))\<rparr>"

definition example_transcriber :: Transcriber where
  "example_transcriber = \<lparr>apiKey = ''sk-test'', transcriber_appDataDir = example_dir\<rparr>"


definition example_audio :: string where
  "example_audio = ''/home/u/.open_whisper/recordings/2024-01-01-00-00-00.wav''"

definition transcribed_files :: filesystem where
  "transcribed_files =
     (''/home/u/.open_whisper/transcriptions/2024-01-01-00-00-00.txt'', File ''hello'') #
     fs_delete example_files ''/home/u/.open_whisper/transcriptions/2024-01-01-00-00-00.txt''"

definition flac_audio :: string where
  "flac_audio = ''/home/u/memo.flac''"

definition flac_files :: filesystem where
  "flac_files = (flac_audio, File ''fLaC'') # example_files"

definition empty_world :: world where
  "empty_world =
     \<lparr>home = Inr ''/home/u'',
      files = [(''/home'', Directory),
               (''/home/u'', Directory),
               (''/home/u/.open_whisper'', Directory),
               (''/home/u/.open_whisper/recordings'', Directory),
               (''/home/u/.open_whisper/transcriptions'', Directory)]\<rparr>"

definition example_entries :: "DirEntry list" where
  "example_entries =
     [\<lparr>Name = ''2024-01-01-00-00-00.txt'', IsDir = False\<rparr>,
      \<lparr>Name = ''2024-06-01-00-00-00.txt'', IsDir = False\<rparr>]"

definition after_delete :: filesystem where
  "after_delete =
     [(''/home'', Directory),
      (''/home/u'', Directory),
      (''/home/u/.open_whisper'', Directory),
      (''/home/u/.open_whisper/recordings'', Directory),
      (''/home/u/.open_whisper/transcriptions'', Directory),
      (''/home/u/.open_whisper/recordings/2024-06-01-00-00-00.wav'', File ''RIFF2''),
      (''/home/u/.open_whisper/transcriptions/2024-06-01-00-00-00.txt'', File ''june'')]"

section \<open>Properties of the recorder\<close>

text \<open>
  C7. Whenever a recording session is active, \<open>StartRecording\<close> fails with the
  already-recording error and leaves the session untouched: the recorder it returns is
  the recorder it was given (subprocess handle, output file path, active flag and timer
  included), and it does nothing outside (no subprocess is started, no timer armed).
\<close>

theorem StartRecording_while_active:
  "isRecording r \<Longrightarrow>
     StartRecording env r = (r, Some (Errorf ''recording is already in progress''), [])"
  by (simp add: StartRecording_def)

theorem StartRecording_while_active_witness:
  "isRecording (fst (StartRecording start_ok (NewRecorder example_dir))) \<and>
   StartRecording start_ok (fst (StartRecording start_ok (NewRecorder example_dir))) =
     (fst (StartRecording start_ok (NewRecorder example_dir)),
      Some (Errorf ''recording is already in progress''), [])"
proof -
  have active: "isRecording (fst (StartRecording start_ok (NewRecorder example_dir)))"
    by (simp add: StartRecording_def NewRecorder_def start_ok_def Let_def)
  show ?thesis
    using active StartRecording_while_active [OF active, of start_ok] by simp
qed





section \<open>Properties of the update function\<close>


lemma confirmation_in_bounds_viewport [simp]:
  "confirmation_in_bounds (m\<lparr>viewport := c\<rparr>) = confirmation_in_bounds m"
  by (simp add: confirmation_in_bounds_def)

lemma returning_Done:
  "returning w c r = Done (w', m', c') \<longleftrightarrow> r = Done m' \<and> w' = w \<and> c' = c"
  by (auto simp: returning_def split: outcome.splits)












section \<open>Paths and formatted times\<close>

lemma split_on_not_Nil [simp]: "split_on s xs \<noteq> []"
  by (induction xs) (auto split: list.splits)

lemma split_on_append:
  "split_on s (a @ s # b) = split_on s a @ split_on s b"
  by (induction a) (auto split: list.splits)

lemma split_on_plain: "s \<notin> set e \<Longrightarrow> split_on s e = [e]"
  by (induction e) auto

lemma join_sep_snoc:
  "es \<noteq> [] \<Longrightarrow> join_sep (es @ [e]) = join_sep es @ CHR ''/'' # e"
  by (induction es rule: join_sep.induct) auto

lemma join_sep_snoc2:
  "join_sep (es @ [d, e]) = join_sep (es @ [d]) @ CHR ''/'' # e"
  using join_sep_snoc[of "es @ [d]" e] by simp

lemma clean_step_plain: "plain_name e \<Longrightarrow> clean_step rooted st e = e # st"
  by (auto simp: clean_step_def plain_name_def)

lemma Clean_snoc:
  assumes "plain_name d" "plain_name n" "p \<noteq> []"
  shows "Clean (p @ CHR ''/'' # d @ CHR ''/'' # n) = Clean (p @ CHR ''/'' # d) @ CHR ''/'' # n"
proof -
  have sd: "split_on CHR ''/'' d = [d]" and sn: "split_on CHR ''/'' n = [n]"
    using assms by (auto simp: plain_name_def intro: split_on_plain)
  have s1: "split_on CHR ''/'' (p @ CHR ''/'' # d) = split_on CHR ''/'' p @ [d]"
    using split_on_append[of "CHR ''/''" p d] sd by simp
  have "p @ CHR ''/'' # d @ CHR ''/'' # n = (p @ CHR ''/'' # d) @ CHR ''/'' # n" by simp
  then have s2: "split_on CHR ''/'' (p @ CHR ''/'' # d @ CHR ''/'' # n)
                   = split_on CHR ''/'' p @ [d, n]"
    using split_on_append[of "CHR ''/''" "p @ CHR ''/'' # d" n] s1 sn by simp
  show ?thesis
    using assms
    by (simp add: Clean_def Let_def s1 s2 clean_step_plain join_sep_snoc2)
qed

lemma Clean_plain2:
  assumes "plain_name d" "plain_name n"
  shows "Clean (d @ CHR ''/'' # n) = d @ CHR ''/'' # n" "Clean d = d"
proof -
  have sd: "split_on CHR ''/'' d = [d]" and sn: "split_on CHR ''/'' n = [n]"
    using assms by (auto simp: plain_name_def intro: split_on_plain)
  have s2: "split_on CHR ''/'' (d @ CHR ''/'' # n) = [d, n]"
    using split_on_append[of "CHR ''/''" d n] sd sn by simp
  have nr: "\<not> is_sep (hd d)" "d \<noteq> []"
    using assms(1) by (cases d; auto simp: plain_name_def is_sep_def)+
  show "Clean (d @ CHR ''/'' # n) = d @ CHR ''/'' # n"
    using assms nr by (simp add: Clean_def Let_def s2 clean_step_plain)
  show "Clean d = d"
    using assms nr by (simp add: Clean_def Let_def sd clean_step_plain)
qed

lemma Join3:
  assumes "plain_name d" "plain_name n"
  shows "Join [a, d, n] = Join [a, d] @ CHR ''/'' # n"
proof (cases "a = []")
  case True
  with assms show ?thesis
    by (simp add: Join_def Clean_plain2) (simp add: plain_name_def)
next
  case False
  with assms show ?thesis
    using Clean_snoc[of d n a] by (simp add: Join_def)
qed

lemma Join3_inj:
  assumes "plain_name d" "plain_name n1" "plain_name n2" "Join [a, d, n1] = Join [a, d, n2]"
  shows "n1 = n2"
  using assms by (simp add: Join3)

lemma digit_char:
  assumes "d < 10"
  shows "of_char (''0123456789'' ! d) = 48 + d"
    and "''0123456789'' ! d \<in> set ''0123456789''"
proof -
  from assms have "d \<in> {0, 1, 2, 3, 4, 5, 6, 7, 8, 9}" by auto
  then show "of_char (''0123456789'' ! d) = 48 + d"
    and "''0123456789'' ! d \<in> set ''0123456789''"
    by auto
qed

lemma itoa_not_Nil [simp]: "itoa n \<noteq> []"
  by (subst itoa.simps) simp

lemma set_itoa: "set (itoa n) \<subseteq> set ''0123456789''"
proof (induction n rule: itoa.induct)
  case (1 n)
  show ?case
  proof (cases "n < 10")
    case True
    then show ?thesis using digit_char(2)[of n] by (subst itoa.simps) simp
  next
    case False
    then show ?thesis
      using 1 digit_char(2)[of "n mod 10"] by (subst itoa.simps) simp
  qed
qed

lemma digits_value_snoc:
  "digits_value (s @ [c]) = digits_value s * 10 + (of_char c - 48)"
  by (simp add: digits_value_def)

lemma digits_value_itoa: "digits_value (itoa n) = n"
proof (induction n rule: itoa.induct)
  case (1 n)
  show ?case
  proof (cases "n < 10")
    case True
    then show ?thesis
      using digit_char(1)[of n] by (subst itoa.simps) (simp add: digits_value_def)
  next
    case False
    then show ?thesis
      using 1 digit_char(1)[of "n mod 10"]
      by (subst itoa.simps) (simp add: digits_value_snoc)
  qed
qed

lemma digits_value_zeros:
  "digits_value (replicate k CHR ''0'' @ s) = digits_value s"
proof -
  have "foldl (\<lambda>acc c. acc * 10 + (of_char c - 48)) 0 (replicate k CHR ''0'') = (0::nat)"
    by (induction k) simp_all
  then show ?thesis by (simp add: digits_value_def)
qed

lemma appendInt_nat:
  "appendInt (int n) w = replicate (w - length (itoa n)) CHR ''0'' @ itoa n"
  by (simp add: appendInt_def Let_def)

lemma appendInt_nat_inj:
  assumes "appendInt (int a) w = appendInt (int b) w"
  shows "a = b"
proof -
  have a: "digits_value (appendInt (int a) w) = a"
    and b: "digits_value (appendInt (int b) w) = b"
    by (simp_all only: appendInt_nat digits_value_zeros digits_value_itoa)
  from assms have "digits_value (appendInt (int a) w) = digits_value (appendInt (int b) w)"
    by (rule arg_cong)
  then show ?thesis by (simp only: a b)
qed

lemma length_itoa_small:
  assumes "n < 100"
  shows "length (itoa n) \<le> 2"
proof (cases "n < 10")
  case True
  then show ?thesis by (subst itoa.simps) simp
next
  case False
  with assms have "n div 10 < 10" by simp
  then have "length (itoa (n div 10)) = 1" by (subst itoa.simps) simp
  with False show ?thesis by (subst itoa.simps) simp
qed

lemma length_appendInt2: "n < 100 \<Longrightarrow> length (appendInt (int n) 2) = 2"
  using length_itoa_small[of n] by (simp add: appendInt_nat)

lemma set_appendInt_nat: "set (appendInt (int n) w) \<subseteq> set ''0123456789''"
  using set_itoa[of n] by (auto simp: appendInt_nat)

lemma slash_notin_itoa: "CHR ''/'' \<notin> set (itoa n)"
  using set_itoa[of n] by auto

lemma slash_notin_appendInt: "CHR ''/'' \<notin> set (appendInt x w)"
  using slash_notin_itoa[of "nat \<bar>x\<bar>"] by (simp add: appendInt_def Let_def)

lemma appendInt_inj:
  assumes "appendInt x w = appendInt y w"
  shows "x = y"
proof -
  have neg: "hd (appendInt z w) = CHR ''-''" "tl (appendInt z w) = appendInt (int (nat \<bar>z\<bar>)) w"
    if "z < 0" for z
    using that by (simp_all add: appendInt_def Let_def)
  have pos: "hd (appendInt z w) \<noteq> CHR ''-''" "appendInt z w = appendInt (int (nat \<bar>z\<bar>)) w"
    if "0 \<le> z" for z
  proof -
    show eq: "appendInt z w = appendInt (int (nat \<bar>z\<bar>)) w"
      using that by (simp add: appendInt_def Let_def)
    have "appendInt (int (nat \<bar>z\<bar>)) w \<noteq> []"
      by (simp only: appendInt_nat) simp
    then have "hd (appendInt (int (nat \<bar>z\<bar>)) w) \<in> set ''0123456789''"
      using set_appendInt_nat[of "nat \<bar>z\<bar>" w] hd_in_set by blast
    then show "hd (appendInt z w) \<noteq> CHR ''-''" using eq by auto
  qed
  consider "x < 0" "y < 0" | "0 \<le> x" "0 \<le> y" | "x < 0" "0 \<le> y" | "0 \<le> x" "y < 0"
    by linarith
  then show ?thesis
  proof cases
    case 1
    have "tl (appendInt x w) = tl (appendInt y w)" using assms by (rule arg_cong)
    then have "appendInt (int (nat \<bar>x\<bar>)) w = appendInt (int (nat \<bar>y\<bar>)) w"
      by (simp only: neg(2)[OF 1(1)] neg(2)[OF 1(2)])
    then have "nat \<bar>x\<bar> = nat \<bar>y\<bar>" by (rule appendInt_nat_inj)
    with 1 show ?thesis by simp
  next
    case 2
    have "appendInt (int (nat \<bar>x\<bar>)) w = appendInt (int (nat \<bar>y\<bar>)) w"
      using pos(2)[OF 2(1)] pos(2)[OF 2(2)] assms by metis
    then have "nat \<bar>x\<bar> = nat \<bar>y\<bar>" by (rule appendInt_nat_inj)
    with 2 show ?thesis by simp
  next
    case 3
    then show ?thesis using neg(1)[OF 3(1)] pos(1)[OF 3(2)] assms by metis
  next
    case 4
    then show ?thesis using neg(1)[OF 4(2)] pos(1)[OF 4(1)] assms by metis
  qed
qed

lemma Format_split: "Format t = appendInt (t_year t) 4 @ clock_suffix t"
  by (simp add: Format_def clock_suffix_def)

lemma length_clock_suffix: "valid_time t \<Longrightarrow> length (clock_suffix t) = 15"
  by (simp add: clock_suffix_def valid_time_def length_appendInt2)

lemma Format_inj:
  assumes "valid_time s" "valid_time t" "Format s = Format t"
  shows "t_year s = t_year t" "t_month s = t_month t" "t_day s = t_day t"
    "t_hour s = t_hour t" "t_minute s = t_minute t" "t_second s = t_second t"
proof -
  have parts: "appendInt (t_year s) 4 = appendInt (t_year t) 4 \<and> clock_suffix s = clock_suffix t"
    using assms length_clock_suffix[of s] length_clock_suffix[of t]
    by (simp add: Format_split append_eq_append_conv)
  then show "t_year s = t_year t" using appendInt_inj by blast
  have len: "length (appendInt (int (t_month s)) 2) = length (appendInt (int (t_month t)) 2)"
    "length (appendInt (int (t_day s)) 2) = length (appendInt (int (t_day t)) 2)"
    "length (appendInt (int (t_hour s)) 2) = length (appendInt (int (t_hour t)) 2)"
    "length (appendInt (int (t_minute s)) 2) = length (appendInt (int (t_minute t)) 2)"
    using assms(1,2) by (simp_all add: valid_time_def length_appendInt2)
  from parts have "appendInt (int (t_month s)) 2 = appendInt (int (t_month t)) 2
      \<and> appendInt (int (t_day s)) 2 = appendInt (int (t_day t)) 2
      \<and> appendInt (int (t_hour s)) 2 = appendInt (int (t_hour t)) 2
      \<and> appendInt (int (t_minute s)) 2 = appendInt (int (t_minute t)) 2
      \<and> appendInt (int (t_second s)) 2 = appendInt (int (t_second t)) 2"
    using len by (simp add: clock_suffix_def append_eq_append_conv)
  then show "t_month s = t_month t" "t_day s = t_day t"
    "t_hour s = t_hour t" "t_minute s = t_minute t" "t_second s = t_second t"
    using appendInt_nat_inj by blast+
qed

lemma plain_name_Format: "plain_name (Format t @ ''.wav'')"
proof -
  have "CHR ''/'' \<notin> set (Format t)"
    by (simp add: Format_def slash_notin_appendInt)
  then show ?thesis by (simp add: plain_name_def)
qed

lemma StartRecording_outputFile:
  "\<not> isRecording r \<Longrightarrow>
     outputFile (fst (StartRecording env r)) =
       Join [appDataDir r, RecordingsDir, Format (now env) @ ''.wav'']"
  by (simp add: StartRecording_def Let_def split: sum.splits)

lemma plain_name_RecordingsDir: "plain_name RecordingsDir"
  by (simp add: plain_name_def RecordingsDir_def)

lemma unix_nanos_close:
  assumes "valid_time s" "valid_time t" "Format s = Format t" "t_offset s = t_offset t"
  shows "\<bar>unix_nanos s - unix_nanos t\<bar> < 1000000000"
proof -
  have "unix_seconds s = unix_seconds t"
    using Format_inj[OF assms(1,2,3)] assms(4) by (simp add: unix_seconds_def)
  then show ?thesis
    using assms(1,2) by (auto simp: unix_nanos_def valid_time_def abs_if)
qed

text \<open>
  C8, as the code has it. The output file path \<open>StartRecording\<close> computes is the file
  in the recordings directory named by the reading of the local wall clock at the start,
  to the second, with extension \<open>.wav\<close>; it depends on that reading and on the
  application directory only. For two start times with the same offset from UTC that
  are at least one second apart, the paths differ.
\<close>

theorem outputFile_distinct:
  assumes "\<not> isRecording r1" and "\<not> isRecording r2"
    and "appDataDir r1 = appDataDir r2"
    and "valid_time (now e1)" and "valid_time (now e2)"
    and "t_offset (now e1) = t_offset (now e2)"
    and "1000000000 \<le> \<bar>unix_nanos (now e1) - unix_nanos (now e2)\<bar>"
  shows "outputFile (fst (StartRecording e1 r1)) =
           Join [appDataDir r1, RecordingsDir, Format (now e1) @ ''.wav'']
       \<and> outputFile (fst (StartRecording e1 r1)) \<noteq> outputFile (fst (StartRecording e2 r2))"
proof -
  have p1: "outputFile (fst (StartRecording e1 r1)) =
              Join [appDataDir r1, RecordingsDir, Format (now e1) @ ''.wav'']"
    using assms(1) by (rule StartRecording_outputFile)
  have p2: "outputFile (fst (StartRecording e2 r2)) =
              Join [appDataDir r1, RecordingsDir, Format (now e2) @ ''.wav'']"
    using StartRecording_outputFile[OF assms(2), of e2] assms(3) by simp
  have "Format (now e1) \<noteq> Format (now e2)"
    using unix_nanos_close[OF assms(4,5) _ assms(6)] assms(7) by fastforce
  then have "Format (now e1) @ ''.wav'' \<noteq> Format (now e2) @ ''.wav''" by simp
  then have "Join [appDataDir r1, RecordingsDir, Format (now e1) @ ''.wav''] \<noteq>
             Join [appDataDir r1, RecordingsDir, Format (now e2) @ ''.wav'']"
    using Join3_inj[OF plain_name_RecordingsDir plain_name_Format plain_name_Format] by blast
  with p1 p2 show ?thesis by simp
qed

theorem outputFile_distinct_witness:
  "\<not> isRecording (NewRecorder example_dir)
   \<and> appDataDir (NewRecorder example_dir) = appDataDir (NewRecorder example_dir)
   \<and> valid_time (now start_ok) \<and> valid_time (now start_next)
   \<and> t_offset (now start_ok) = t_offset (now start_next)
   \<and> 1000000000 \<le> \<bar>unix_nanos (now start_ok) - unix_nanos (now start_next)\<bar>
   \<and> outputFile (fst (StartRecording start_ok (NewRecorder example_dir))) =
         Join [appDataDir (NewRecorder example_dir), RecordingsDir,
               Format (now start_ok) @ ''.wav'']
   \<and> outputFile (fst (StartRecording start_ok (NewRecorder example_dir))) \<noteq>
       outputFile (fst (StartRecording start_next (NewRecorder example_dir)))"
proof -
  have h: "\<not> isRecording (NewRecorder example_dir)"
    "valid_time (now start_ok)" "valid_time (now start_next)"
    "t_offset (now start_ok) = t_offset (now start_next)"
    "1000000000 \<le> \<bar>unix_nanos (now start_ok) - unix_nanos (now start_next)\<bar>"
    by (simp_all add: NewRecorder_def start_ok_def start_next_def valid_time_def
        example_time_def example_time_next_def unix_nanos_def unix_seconds_def)
  show ?thesis
    using h outputFile_distinct [OF h(1) h(1) refl h(2) h(3) h(4) h(5)]
    by blast
qed

text \<open>
  C8, as stated, fails: the file name is the local wall-clock reading and carries no
  offset, so the two passes through 01:30:00 on a night when the clock is set back an
  hour (an hour apart) give the same path.
\<close>

theorem outputFile_collision_counterexample:
  "valid_time (now start_ok) \<and> valid_time (now start_later)
   \<and> 1000000000 \<le> unix_nanos (now start_later) - unix_nanos (now start_ok)
   \<and> outputFile (fst (StartRecording start_later (NewRecorder example_dir))) =
       outputFile (fst (StartRecording start_ok (NewRecorder example_dir)))"
  by (simp add: StartRecording_outputFile NewRecorder_def start_ok_def start_later_def
      valid_time_def example_time_def example_time_later_def unix_nanos_def unix_seconds_def
      Format_def)

section \<open>Properties of the transcriber\<close>






lemma ext_scan_dot:
  "\<forall>c\<in>set xs. \<not> is_sep c \<and> c \<noteq> CHR ''.'' \<Longrightarrow>
     ext_scan (xs @ CHR ''.'' # ys) acc = CHR ''.'' # rev xs @ acc"
  by (induction xs arbitrary: acc) (simp_all add: is_sep_def)

lemma ext_scan_decomp:
  "ext_scan xs acc \<noteq> [] \<Longrightarrow>
     \<exists>pre rest. xs = pre @ CHR ''.'' # rest \<and> (\<forall>c\<in>set pre. \<not> is_sep c \<and> c \<noteq> CHR ''.'')
                \<and> ext_scan xs acc = CHR ''.'' # rev pre @ acc"
proof (induction xs arbitrary: acc)
  case Nil
  then show ?case by simp
next
  case (Cons x xs)
  show ?case
  proof (cases "x = CHR ''.''")
    case True
    then have "x # xs = [] @ CHR ''.'' # xs \<and> ext_scan (x # xs) acc = CHR ''.'' # rev [] @ acc"
      by (simp add: is_sep_def)
    then show ?thesis by (metis empty_iff list.set(1))
  next
    case False
    with Cons.prems have ns: "\<not> is_sep x" and ne: "ext_scan xs (x # acc) \<noteq> []"
      by (auto split: if_splits)
    from Cons.IH[OF ne] obtain pre rest where
      d: "xs = pre @ CHR ''.'' # rest" "\<forall>c\<in>set pre. \<not> is_sep c \<and> c \<noteq> CHR ''.''"
         "ext_scan xs (x # acc) = CHR ''.'' # rev pre @ x # acc"
      by blast
    have "x # xs = (x # pre) @ CHR ''.'' # rest" using d(1) by simp
    moreover have "\<forall>c\<in>set (x # pre). \<not> is_sep c \<and> c \<noteq> CHR ''.''"
      using d(2) ns False by simp
    moreover have "ext_scan (x # xs) acc = CHR ''.'' # rev (x # pre) @ acc"
      using d(3) ns False by simp
    ultimately show ?thesis by blast
  qed
qed

lemma Ext_decomp:
  assumes "Ext a \<noteq> []"
  shows "\<exists>q. a = q @ Ext a" and "\<forall>c\<in>set (Ext a). \<not> is_sep c"
    and "\<exists>e. Ext a = CHR ''.'' # e \<and> CHR ''.'' \<notin> set e"
proof -
  from assms obtain pre rest where
    d: "rev a = pre @ CHR ''.'' # rest" "\<forall>c\<in>set pre. \<not> is_sep c \<and> c \<noteq> CHR ''.''"
       "Ext a = CHR ''.'' # rev pre"
    using ext_scan_decomp[of "rev a" "[]"] by (auto simp: Ext_def)
  have "a = rev (rev a)" by simp
  also have "\<dots> = rev rest @ CHR ''.'' # rev pre" by (simp only: d(1)) simp
  finally show "\<exists>q. a = q @ Ext a" using d(3) by auto
  show "\<forall>c\<in>set (Ext a). \<not> is_sep c" using d(2,3) by (auto simp: is_sep_def)
  show "\<exists>e. Ext a = CHR ''.'' # e \<and> CHR ''.'' \<notin> set e" using d(2,3) by auto
qed

lemma Ext_append:
  assumes "CHR ''.'' \<notin> set e" "\<forall>c\<in>set e. \<not> is_sep c"
  shows "Ext (q @ CHR ''.'' # e) = CHR ''.'' # e"
proof -
  have "\<forall>c\<in>set (rev e). \<not> is_sep c \<and> c \<noteq> CHR ''.''" using assms by auto
  from ext_scan_dot[OF this, of "rev q" "[]"] show ?thesis by (simp add: Ext_def)
qed

lemma Base_append:
  assumes "e \<noteq> []" "\<forall>c\<in>set e. \<not> is_sep c"
  shows "Base (q @ e) = rev (takeWhile (\<lambda>c. \<not> is_sep c) (rev q)) @ e"
proof -
  have d: "dropWhile is_sep (rev e @ rev q) = rev e @ rev q"
    using assms by (cases "rev e") (auto simp: dropWhile_append)
  have t: "takeWhile (\<lambda>c. \<not> is_sep c) (rev e @ rev q)
             = rev e @ takeWhile (\<lambda>c. \<not> is_sep c) (rev q)"
    using assms(2) by (intro takeWhile_append2) simp
  show ?thesis using assms(1) by (simp add: Base_def Let_def d t)
qed

lemma Base_last_element:
  assumes "takeWhile (\<lambda>c. \<not> is_sep c) (rev q) \<noteq> []"
  shows "Base q = rev (takeWhile (\<lambda>c. \<not> is_sep c) (rev q))"
proof -
  from assms have "dropWhile is_sep (rev q) = rev q" by (cases "rev q") auto
  moreover from assms have "q \<noteq> []" by auto
  ultimately show ?thesis using assms by (simp add: Base_def Let_def)
qed

lemma txt_name_code:
  assumes "length (Ext a) = 4" "4 < length (Base a)"
  shows "Base (take (length a - 4) a) @ ''.txt'' = txt_name a"
    and "4 \<le> length a"
proof -
  have ne: "Ext a \<noteq> []" using assms(1) by auto
  from Ext_decomp(1)[OF ne] obtain q where q: "a = q @ Ext a" by blast
  from Ext_decomp(3)[OF ne] obtain e where e: "Ext a = CHR ''.'' # e" "CHR ''.'' \<notin> set e"
    by blast
  have ns: "\<forall>c\<in>set (Ext a). \<not> is_sep c" by (rule Ext_decomp(2)[OF ne])
  let ?L = "rev (takeWhile (\<lambda>c. \<not> is_sep c) (rev q))"
  have b: "Base a = ?L @ Ext a"
    using Base_append[OF ne ns, of q] q by simp
  then have L: "takeWhile (\<lambda>c. \<not> is_sep c) (rev q) \<noteq> []"
    using assms by auto
  have bq: "Base q = ?L" by (rule Base_last_element[OF L])
  have tk: "take (length a - 4) a = q"
    using q assms(1) by (metis add_diff_cancel_right' append_eq_conv_conj length_append)
  have "Ext (?L @ Ext a) = Ext a"
    using Ext_append[OF e(2), of ?L] ns e(1) by simp
  then have "txt_name a = ?L @ ''.txt''"
    by (simp add: txt_name_def Let_def b)
  with bq tk show "Base (take (length a - 4) a) @ ''.txt'' = txt_name a" by simp
  show "4 \<le> length a" using q assms(1) by (metis le_add2 length_append)
qed

lemma plain_name_txt_name:
  assumes "length (Ext a) = 4" "4 < length (Base a)"
  shows "plain_name (txt_name a)"
proof -
  have ne: "Ext a \<noteq> []" using assms(1) by auto
  from Ext_decomp(1)[OF ne] obtain q where q: "a = q @ Ext a" by blast
  have ns: "\<forall>c\<in>set (Ext a). \<not> is_sep c" by (rule Ext_decomp(2)[OF ne])
  have b: "Base a = rev (takeWhile (\<lambda>c. \<not> is_sep c) (rev q)) @ Ext a"
    using Base_append[OF ne ns, of q] q by simp
  have "\<forall>c\<in>set (Base a). \<not> is_sep c"
    unfolding b using ns by (auto dest: set_takeWhileD)
  then have "\<forall>c\<in>set (take (length (Base a) - length (Ext (Base a))) (Base a)). \<not> is_sep c"
    by (meson in_set_takeD)
  then have "CHR ''/'' \<notin> set (txt_name a)"
    by (auto simp: txt_name_def Let_def is_sep_def)
  moreover have "4 \<le> length (txt_name a)" by (simp add: txt_name_def Let_def)
  ultimately show ?thesis by (auto simp: plain_name_def)
qed

lemma plain_name_TranscriptionsDir: "plain_name TranscriptionsDir"
  by (simp add: plain_name_def TranscriptionsDir_def)

lemma os_WriteFile_written:
  "os_WriteFile fs p content = Inr fs' \<Longrightarrow> map_of fs' p = Some (File content)"
  by (auto simp: os_WriteFile_def split: if_splits)

text \<open>
  C3, as the code has it. For an audio file that can be opened, whose extension has four
  characters and whose base name is longer than the extension (as of every path
  \<open>StartRecording\<close> computes), and a response with status 200 whose body decodes to a
  text: when the file with the audio file's base name, its extension replaced by
  \<open>.txt\<close>, can be written in the transcriptions directory, \<open>Transcribe\<close> writes exactly
  the text there and returns the text.
\<close>

theorem Transcribe_writes_text:
  assumes "map_of fs audioFile = Some (File content)"
    and "client_Do env (transcription_request t audioFile content) = Inr resp"
    and "StatusCode resp = 200"
    and "json_Decode env (Body resp) = Inr text"
    and "length (Ext audioFile) = 4"
    and "4 < length (Base audioFile)"
    and "os_WriteFile fs
           (Join [transcriber_appDataDir t, TranscriptionsDir] @ ''/'' @ txt_name audioFile)
           text = Inr fs'"
  shows "Transcribe env t fs audioFile = (fs', Done (Inr text))
       \<and> map_of fs' (Join [transcriber_appDataDir t, TranscriptionsDir] @ ''/'' @
                       txt_name audioFile) = Some (File text)"
proof -
  have name: "Base (take (length audioFile - 4) audioFile) @ ''.txt'' = txt_name audioFile"
    and len: "4 \<le> length audioFile"
    using txt_name_code[OF assms(5,6)] by simp_all
  have path: "Join [transcriber_appDataDir t, TranscriptionsDir, txt_name audioFile] =
              Join [transcriber_appDataDir t, TranscriptionsDir] @ ''/'' @ txt_name audioFile"
    using Join3[OF plain_name_TranscriptionsDir plain_name_txt_name[OF assms(5,6)]] by simp
  have "Transcribe env t fs audioFile = (fs', Done (Inr text))"
    using assms(1-4,7) len by (simp add: Transcribe_def Let_def name path)
  then show ?thesis using os_WriteFile_written[OF assms(7)] by simp
qed

theorem Transcribe_writes_text_witness:
  "map_of example_files example_audio = Some (File ''RIFF1'')
   \<and> client_Do example_net (transcription_request example_transcriber example_audio ''RIFF1'')
       = Inr example_response
   \<and> StatusCode example_response = 200
   \<and> json_Decode example_net (Body example_response) = Inr ''hello''
   \<and> length (Ext example_audio) = 4
   \<and> 4 < length (Base example_audio)
   \<and> os_WriteFile example_files
       (Join [transcriber_appDataDir example_transcriber, TranscriptionsDir] @ ''/'' @
          txt_name example_audio) ''hello'' = Inr transcribed_files
   \<and> Transcribe example_net example_transcriber example_files example_audio
       = (transcribed_files, Done (Inr ''hello''))
   \<and> map_of transcribed_files
       (Join [transcriber_appDataDir example_transcriber, TranscriptionsDir] @ ''/'' @
          txt_name example_audio) = Some (File ''hello'')"
proof -
  have h: "map_of example_files example_audio = Some (File ''RIFF1'')"
    "client_Do example_net (transcription_request example_transcriber example_audio ''RIFF1'')
       = Inr example_response"
    "StatusCode example_response = 200"
    "json_Decode example_net (Body example_response) = Inr ''hello''"
    "length (Ext example_audio) = 4"
    "4 < length (Base example_audio)"
    "os_WriteFile example_files
       (Join [transcriber_appDataDir example_transcriber, TranscriptionsDir] @ ''/'' @
          txt_name example_audio) ''hello'' = Inr transcribed_files"
    by code_simp+
  show ?thesis
    using h Transcribe_writes_text [OF h] by blast
qed

text \<open>
  C3, as stated, fails: the code drops four characters, whatever the extension is. For
  an audio file \<open>memo.flac\<close> the transcription is written to \<open>memo..txt\<close>, and no file
  \<open>memo.txt\<close> is written.
\<close>

theorem Transcribe_name_counterexample:
  "map_of flac_files flac_audio = Some (File ''fLaC'')
   \<and> txt_name flac_audio = ''memo.txt''
   \<and> snd (Transcribe example_net example_transcriber flac_files flac_audio) = Done (Inr ''hello'')
   \<and> map_of (fst (Transcribe example_net example_transcriber flac_files flac_audio))
        ''/home/u/.open_whisper/transcriptions/memo.txt'' = None
   \<and> map_of (fst (Transcribe example_net example_transcriber flac_files flac_audio))
        ''/home/u/.open_whisper/transcriptions/memo..txt'' = Some (File ''hello'')"
  by code_simp

section \<open>Properties of the transcription store\<close>

lemma mset_insert_by: "mset (insert_by lt x xs) = add_mset x (mset xs)"
  by (induction xs) simp_all

lemma mset_sort_Slice: "mset (sort_Slice lt xs) = mset xs"
  by (induction xs) (simp_all add: sort_Slice_def mset_insert_by)

lemma set_insert_by: "set (insert_by lt x xs) = insert x (set xs)"
  by (induction xs) auto

lemma sorted_insert_by:
  fixes x :: "'a::linorder"
  assumes "sorted_wrt (\<lambda>a b. a \<ge> b) xs"
  shows "sorted_wrt (\<lambda>a b. a \<ge> b) (insert_by (\<lambda>a b. a > b) x xs)"
  using assms by (induction xs) (auto simp: set_insert_by)

lemma sorted_sort_Slice:
  fixes xs :: "'a::linorder list"
  shows "sorted_wrt (\<lambda>a b. a \<ge> b) (sort_Slice (\<lambda>a b. a > b) xs)"
  by (induction xs) (simp_all add: sort_Slice_def sorted_insert_by)

lemma mset_txt_names:
  "mset (txt_names entries) =
     image_mset Name (filter_mset (\<lambda>e. \<not> IsDir e \<and> Ext (Name e) = ''.txt'') (mset entries))"
  by (simp add: txt_names_def)

text \<open>
  C5. When the application directory is there and the transcriptions directory can be
  read, \<open>loadTranscriptions\<close> returns the names of exactly the entries that are not
  directories and have extension \<open>.txt\<close>, each once, in descending lexicographic order.
  So an empty directory gives the empty list, and of the two files of January and June
  2024 the June file comes first.
\<close>

theorem loadTranscriptions_sorted:
  assumes "GetAppDataDir w = (w1, Inr dir)"
    and "os_ReadDir (files w1) (Join [dir, TranscriptionsDir]) = Inr entries"
  shows "\<exists>names. loadTranscriptions w = (w1, stringsMsg names)
           \<and> sorted_wrt (\<lambda>a b. a \<ge> b) names
           \<and> mset names =
               image_mset Name
                 (filter_mset (\<lambda>e. \<not> IsDir e \<and> Ext (Name e) = ''.txt'') (mset entries))"
  using assms
  by (simp add: loadTranscriptions_def sorted_sort_Slice mset_sort_Slice mset_txt_names)


theorem loadTranscriptions_sorted_witness:
  "GetAppDataDir example_world = (example_world, Inr example_dir)
   \<and> os_ReadDir (files example_world) (Join [example_dir, TranscriptionsDir]) = Inr example_entries
   \<and> (\<exists>names. loadTranscriptions example_world = (example_world, stringsMsg names)
          \<and> sorted_wrt (\<lambda>a b. a \<ge> b) names
          \<and> mset names =
              image_mset Name
                (filter_mset (\<lambda>e. \<not> IsDir e \<and> Ext (Name e) = ''.txt'') (mset example_entries)))
   \<and> loadTranscriptions example_world =
       (example_world, stringsMsg [''2024-06-01-00-00-00.txt'', ''2024-01-01-00-00-00.txt''])
   \<and> loadTranscriptions empty_world = (empty_world, stringsMsg [])"
proof -
  have h: "GetAppDataDir example_world = (example_world, Inr example_dir)"
    "os_ReadDir (files example_world) (Join [example_dir, TranscriptionsDir]) = Inr example_entries"
    by code_simp+
  have e: "loadTranscriptions example_world =
       (example_world, stringsMsg [''2024-06-01-00-00-00.txt'', ''2024-01-01-00-00-00.txt''])"
    "loadTranscriptions empty_world = (empty_world, stringsMsg [])"
    by code_simp+
  show ?thesis
    using h e loadTranscriptions_sorted [OF h] by blast
qed

lemma map_of_fs_delete:
  "map_of (fs_delete fs p) q = (if q = p then None else map_of fs q)"
  by (induction fs) (auto simp: fs_delete_def)

lemma TrimSuffix_append: "TrimSuffix (stem @ suffix) suffix = stem"
  by (simp add: TrimSuffix_def HasSuffix_def)

lemma os_Remove_file:
  "map_of fs p = Some (File c) \<Longrightarrow> os_Remove fs p = Inr (fs_delete fs p)"
  by (simp add: os_Remove_def)

lemma os_Remove_missing:
  "map_of fs p = None \<Longrightarrow> os_Remove fs p = Inl (ErrNotExist p)"
  by (simp add: os_Remove_def)

lemma os_Remove_result:
  "os_Remove fs p = Inr fs' \<Longrightarrow> fs' = fs_delete fs p"
  by (auto simp: os_Remove_def split: option.splits node.splits if_splits)

text \<open>
  C6. With the application directory there, \<open>deleteTranscription\<close> of a file name
  \<open>stem.txt\<close>: when the transcription file does not exist, returns the not-found error
  and leaves every file as it was (the audio file too); when it exists, removes it,
  removes the audio file \<open>stem.wav\<close> of the recordings directory if there is one (that
  there is none is no error), changes no other file, and returns the reloaded list.
\<close>

theorem deleteTranscription_pair:
  assumes "GetAppDataDir w = (w1, Inr dir)"
  shows "(map_of (files w1) (Join [dir, TranscriptionsDir, stem @ ''.txt'']) = None \<longrightarrow>
            deleteTranscription (stem @ ''.txt'') w =
              (w1, errMsg (Wrapped ''failed to delete transcription''
                     (ErrNotExist (Join [dir, TranscriptionsDir, stem @ ''.txt''])))))
       \<and> (map_of (files w1) (Join [dir, TranscriptionsDir, stem @ ''.txt'']) = Some (File c) \<longrightarrow>
            (\<exists>fs2. deleteTranscription (stem @ ''.txt'') w = loadTranscriptions (w1\<lparr>files := fs2\<rparr>)
               \<and> map_of fs2 (Join [dir, TranscriptionsDir, stem @ ''.txt'']) = None
               \<and> (map_of (files w1) (Join [dir, RecordingsDir, stem @ ''.wav'']) \<noteq> Some Directory
                    \<longrightarrow> map_of fs2 (Join [dir, RecordingsDir, stem @ ''.wav'']) = None)
               \<and> (\<forall>p. p \<noteq> Join [dir, TranscriptionsDir, stem @ ''.txt''] \<and>
                       p \<noteq> Join [dir, RecordingsDir, stem @ ''.wav''] \<longrightarrow>
                       map_of fs2 p = map_of (files w1) p)))"
proof (intro conjI impI)
  let ?t = "Join [dir, TranscriptionsDir, stem @ ''.txt'']"
  let ?a = "Join [dir, RecordingsDir, stem @ ''.wav'']"
  assume "map_of (files w1) ?t = None"
  then show "deleteTranscription (stem @ ''.txt'') w =
               (w1, errMsg (Wrapped ''failed to delete transcription'' (ErrNotExist ?t)))"
    using assms by (simp add: deleteTranscription_def os_Remove_missing)
next
  let ?t = "Join [dir, TranscriptionsDir, stem @ ''.txt'']"
  let ?a = "Join [dir, RecordingsDir, stem @ ''.wav'']"
  let ?fs1 = "fs_delete (files w1) ?t"
  let ?fs2 = "case os_Remove ?fs1 ?a of Inl e \<Rightarrow> ?fs1 | Inr fs' \<Rightarrow> fs'"
  assume ex: "map_of (files w1) ?t = Some (File c)"
  have run: "deleteTranscription (stem @ ''.txt'') w = loadTranscriptions (w1\<lparr>files := ?fs2\<rparr>)"
    using assms ex
    by (simp add: deleteTranscription_def os_Remove_file TrimSuffix_append Let_def)
  have cases: "?fs2 = ?fs1 \<or> ?fs2 = fs_delete ?fs1 ?a"
    by (auto split: sum.splits dest: os_Remove_result)
  have t: "map_of ?fs2 ?t = None"
    using cases by (auto simp: map_of_fs_delete)
  have other: "\<forall>p. p \<noteq> ?t \<and> p \<noteq> ?a \<longrightarrow> map_of ?fs2 p = map_of (files w1) p"
    using cases by (auto simp: map_of_fs_delete)
  have a: "map_of (files w1) ?a \<noteq> Some Directory \<longrightarrow> map_of ?fs2 ?a = None"
  proof
    assume nd: "map_of (files w1) ?a \<noteq> Some Directory"
    show "map_of ?fs2 ?a = None"
    proof (cases "map_of ?fs1 ?a")
      case None
      then show ?thesis using cases by (auto simp: map_of_fs_delete)
    next
      case (Some n)
      with nd obtain c' where "map_of ?fs1 ?a = Some (File c')"
        by (cases n) (auto simp: map_of_fs_delete split: if_splits)
      then have "os_Remove ?fs1 ?a = Inr (fs_delete ?fs1 ?a)" by (rule os_Remove_file)
      then show ?thesis by (simp add: map_of_fs_delete)
    qed
  qed
  from run t a other
  show "\<exists>fs2. deleteTranscription (stem @ ''.txt'') w = loadTranscriptions (w1\<lparr>files := fs2\<rparr>)
          \<and> map_of fs2 ?t = None
          \<and> (map_of (files w1) ?a \<noteq> Some Directory \<longrightarrow> map_of fs2 ?a = None)
          \<and> (\<forall>p. p \<noteq> ?t \<and> p \<noteq> ?a \<longrightarrow> map_of fs2 p = map_of (files w1) p)"
    by blast
qed

theorem deleteTranscription_pair_witness:
  "GetAppDataDir example_world = (example_world, Inr example_dir)
   \<and> map_of (files example_world)
        (Join [example_dir, TranscriptionsDir, ''2024-03-01-00-00-00'' @ ''.txt'']) = None
   \<and> deleteTranscription (''2024-03-01-00-00-00'' @ ''.txt'') example_world =
        (example_world, errMsg (Wrapped ''failed to delete transcription''
           (ErrNotExist (Join [example_dir, TranscriptionsDir,
                               ''2024-03-01-00-00-00'' @ ''.txt'']))))
   \<and> map_of (files example_world)
        (Join [example_dir, TranscriptionsDir, ''2024-01-01-00-00-00'' @ ''.txt''])
        = Some (File ''january'')
   \<and> map_of (files example_world)
        (Join [example_dir, RecordingsDir, ''2024-01-01-00-00-00'' @ ''.wav''])
        = Some (File ''RIFF1'')
   \<and> (\<exists>fs2. deleteTranscription (''2024-01-01-00-00-00'' @ ''.txt'') example_world =
                loadTranscriptions (example_world\<lparr>files := fs2\<rparr>)
          \<and> map_of fs2 (Join [example_dir, TranscriptionsDir,
                               ''2024-01-01-00-00-00'' @ ''.txt'']) = None
          \<and> map_of fs2 (Join [example_dir, RecordingsDir,
                               ''2024-01-01-00-00-00'' @ ''.wav'']) = None)
   \<and> deleteTranscription (''2024-01-01-00-00-00'' @ ''.txt'') example_world =
        (example_world\<lparr>files := after_delete\<rparr>, stringsMsg [''2024-06-01-00-00-00.txt''])"
proof -
  have g: "GetAppDataDir example_world = (example_world, Inr example_dir)"
    by code_simp
  have h: "map_of (files example_world)
        (Join [example_dir, TranscriptionsDir, ''2024-03-01-00-00-00'' @ ''.txt'']) = None"
    "map_of (files example_world)
        (Join [example_dir, TranscriptionsDir, ''2024-01-01-00-00-00'' @ ''.txt''])
        = Some (File ''january'')"
    "map_of (files example_world)
        (Join [example_dir, RecordingsDir, ''2024-01-01-00-00-00'' @ ''.wav''])
        = Some (File ''RIFF1'')"
    "deleteTranscription (''2024-01-01-00-00-00'' @ ''.txt'') example_world =
        (example_world\<lparr>files := after_delete\<rparr>, stringsMsg [''2024-06-01-00-00-00.txt''])"
    by code_simp+
  have nd: "map_of (files example_world)
        (Join [example_dir, RecordingsDir, ''2024-01-01-00-00-00'' @ ''.wav''])
        \<noteq> Some Directory"
    by (simp only: h(3)) simp
  show ?thesis
    using g h nd
      deleteTranscription_pair [OF g, of "''2024-03-01-00-00-00''" "''january''"]
      deleteTranscription_pair [OF g, of "''2024-01-01-00-00-00''" "''january''"]
    by blast
qed

section \<open>Properties of the list selection\<close>

text \<open>
  The Up and Down keys keep the selection within the list, and do nothing at its first
  and last entry.
\<close>

lemma set_list_view_fields:
  "set_list_view m = Done m' \<Longrightarrow>
     selectedIndex m' = selectedIndex m \<and> transcriptionFiles m' = transcriptionFiles m"
  by (auto simp: set_list_view_def split: outcome.splits)

lemma select_file_bounds:
  assumes "select_file w m = Done (w', m', c)"
  shows "selection_in_bounds m' \<and> transcriptionFiles m' = transcriptionFiles m"
proof -
  from assms have r: "0 \<le> selectedIndex m \<and> selectedIndex m < int (length (transcriptionFiles m))"
    by (auto simp: select_file_def Let_def index_def split: if_splits)
  from assms have "selectedIndex m' = selectedIndex m \<and> transcriptionFiles m' = transcriptionFiles m"
    by (auto simp: select_file_def Let_def index_def returning_Done
        dest!: set_list_view_fields split: if_splits prod.splits sum.splits)
  with r show ?thesis by (simp add: selection_in_bounds_def)
qed

lemma list_key_Up:
  assumes "\<not> showingDeleteConfirmation m" "k \<in> set keys_Up"
  shows "handleTranscriptionListUpdate w m (KeyMsg k) =
           (if selectedIndex m > 0 then select_file w (m\<lparr>selectedIndex := selectedIndex m - 1\<rparr>)
            else Done (w, m, nil_Cmd))"
proof -
  from assms(2) consider "k = ''up''" | "k = ''k''" by (auto simp: keys_Up_def)
  then show ?thesis
    using assms(1)
    by cases
       (simp_all add: handleTranscriptionListUpdate_def Matches_def keys_Up_def
          keys_Delete_def keys_Record_def)
qed

lemma list_key_Down:
  assumes "\<not> showingDeleteConfirmation m" "k \<in> set keys_Down"
  shows "handleTranscriptionListUpdate w m (KeyMsg k) =
           (if selectedIndex m < int (length (transcriptionFiles m)) - 1
            then select_file w (m\<lparr>selectedIndex := selectedIndex m + 1\<rparr>)
            else Done (w, m, nil_Cmd))"
proof -
  from assms(2) consider "k = ''down''" | "k = ''j''" by (auto simp: keys_Down_def)
  then show ?thesis
    using assms(1)
    by cases
       (simp_all add: handleTranscriptionListUpdate_def Matches_def keys_Up_def keys_Down_def
          keys_Delete_def keys_Record_def)
qed

lemma up_down_keep_bounds:
  assumes "selection_in_bounds m" "\<not> showingDeleteConfirmation m"
    and "k \<in> set keys_Up \<union> set keys_Down"
    and "handleTranscriptionListUpdate w m (KeyMsg k) = Done (w', m', c)"
  shows "selection_in_bounds m' \<and> transcriptionFiles m' = transcriptionFiles m"
proof -
  from assms(3) consider "k \<in> set keys_Up" | "k \<in> set keys_Down" by auto
  then show ?thesis
  proof cases
    case 1
    show ?thesis
    proof (cases "selectedIndex m > 0")
      case True
      then show ?thesis
        using assms(4) select_file_bounds[of w "m\<lparr>selectedIndex := selectedIndex m - 1\<rparr>" w' m' c]
        by (simp add: list_key_Up[OF assms(2) 1])
    next
      case False
      then show ?thesis using assms(1,4) by (simp add: list_key_Up[OF assms(2) 1])
    qed
  next
    case 2
    show ?thesis
    proof (cases "selectedIndex m < int (length (transcriptionFiles m)) - 1")
      case True
      then show ?thesis
        using assms(4) select_file_bounds[of w "m\<lparr>selectedIndex := selectedIndex m + 1\<rparr>" w' m' c]
        by (simp add: list_key_Down[OF assms(2) 2])
    next
      case False
      then show ?thesis using assms(1,4) by (simp add: list_key_Down[OF assms(2) 2])
    qed
  qed
qed

lemma up_at_first_is_noop:
  assumes "\<not> showingDeleteConfirmation m" "selectedIndex m = 0" "k \<in> set keys_Up"
  shows "handleTranscriptionListUpdate w m (KeyMsg k) = Done (w, m, nil_Cmd)"
  using assms(2) by (simp add: list_key_Up[OF assms(1,3)])

lemma down_at_last_is_noop:
  assumes "\<not> showingDeleteConfirmation m"
    and "selectedIndex m = int (length (transcriptionFiles m)) - 1" "k \<in> set keys_Down"
  shows "handleTranscriptionListUpdate w m (KeyMsg k) = Done (w, m, nil_Cmd)"
  using assms(2) by (simp add: list_key_Down[OF assms(1,3)])

text \<open>
  C1 does not hold of the code. With the January and the June transcription in the
  list: open the list, move down to the last entry, press delete and confirm. The list
  is reloaded with one entry and the selection is still 1, outside \<open>[0, 0]\<close>. Pressing
  delete once more then indexes the list at 1, and the program panics.
\<close>

theorem selection_out_of_bounds_after_delete:
  "(case press (Done (example_world, initialModel)) [''l'', ''j'', ''d'', ''enter''] of
      Panic \<Rightarrow> False
    | Done (w, m) \<Rightarrow>
        transcriptionFiles m = [''2024-06-01-00-00-00.txt''] \<and> selectedIndex m = 1
        \<and> \<not> selection_in_bounds m)
   \<and> press (Done (example_world, initialModel)) [''l'', ''j'', ''d'', ''enter'', ''d''] = Panic"
  by code_simp

section \<open>The stop key\<close>

text \<open>
  In the recording view, with the help panel closed and a recording running, the stop
  key leaves the model as it is and returns the two commands as one ordered sequence:
  stop first, transcribe second.
\<close>

lemma stop_key_sequence:
  assumes "recordingState m = Recording" "\<not> help_ShowAll m" "\<not> showingTranscriptions m"
    and "k \<in> set keys_StopRecording"
  shows "Update w m (KeyMsg k) = Done (w, m, Sequence [stopRecording_Cmd, transcribe_Cmd])"
  using assms
  by (auto simp: Update_def update_key_def handleRecordingUpdate_def Matches_def
      keys_StopRecording_def keys_Back_def keys_Help_def keys_Quit_def
      keys_ListTranscriptions_def keys_Record_def)

end
